theory Spec2Isabelle
  imports Complex_Main "HOL-Library.Word"
begin

section \<open>Dual-OLED audio visualizer: capture engine, analyzers, metadata text, power state\<close>

text \<open>
  A shallow embedding of \<^verbatim>\<open>src/visualizer.cpp\<close>. The classes \<^verbatim>\<open>AudioProcessor\<close>,
  \<^verbatim>\<open>MPDClient\<close>, \<^verbatim>\<open>ControlState\<close> and \<^verbatim>\<open>VisualizerApp\<close> become records, their
  member functions become functions that take the record and return the updated one.

  Conventions of the model:
  \<^item> A C++ \<^verbatim>\<open>float\<close> is an exact real number: rounding, infinities and NaN are outside
    the model. Every property below is an algebraic property of the formulas the code
    evaluates.
  \<^item> \<^verbatim>\<open>int16_t\<close> samples are \<open>16 word\<close> read through \<open>sint\<close>; \<^verbatim>\<open>unsigned\<close> is
    \<open>32 word\<close>; \<^verbatim>\<open>int\<close> values that provably stay in range are \<open>int\<close>.
  \<^item> \<^verbatim>\<open>std::chrono::steady_clock\<close> time points are integers counting nanoseconds; the
    value returned by \<^verbatim>\<open>now()\<close> is an input of the function that calls it.
  \<^item> The threads are modelled one step at a time (one capture iteration, one pass of
    the main loop); the interleaving of threads is outside the model.
\<close>

subsection \<open>Constants of \<^verbatim>\<open>AudioProcessor\<close>\<close>

definition SAMPLE_RATE :: int where "SAMPLE_RATE = 44100"
definition CHANNELS :: int where "CHANNELS = 2"
definition FRAMES_PER_BUFFER :: int where "FRAMES_PER_BUFFER = 2048"
definition FFT_SIZE_BASS :: int where "FFT_SIZE_BASS = 8192"
definition SILENCE_THRESHOLD :: real where "SILENCE_THRESHOLD = 0.001"
definition SLEEP_TIMEOUT_SEC :: int where "SLEEP_TIMEOUT_SEC = 10"

text \<open>The capacity of the circular buffers, \<^verbatim>\<open>FFT_SIZE_BASS * 2\<close>.\<close>

definition BUFFER_SIZE :: nat where "BUFFER_SIZE = nat (FFT_SIZE_BASS * 2)"

subsection \<open>The state of \<^verbatim>\<open>AudioProcessor\<close>\<close>

type_synonym int16 = "16 word"
type_synonym frame = "int16 \<times> int16"
type_synonym time_point = int

record AudioProcessor =
  ap_is_sleeping :: bool
  circular_buffer_left :: "real list"
  circular_buffer_right :: "real list"
  write_pos :: nat
  prev_left_spectrum :: "real list"
  prev_right_spectrum :: "real list"
  noise_reduction :: real
  sensitivity :: real
  integral_factor :: real
  gravity_factor :: real
  scale_factor :: real
  last_audio_time :: time_point
  max_amplitude :: real

text \<open>\<^verbatim>\<open>audio_buffer[i] / 32768.0f\<close>: a signed 16-bit sample normalised to a float.\<close>

definition s16_to_float :: "int16 \<Rightarrow> real" where
  "s16_to_float x = real_of_int (sint x) / 32768"

subsection \<open>\<^verbatim>\<open>updateParameters\<close>, the setters and the constructor\<close>

definition updateParameters :: "AudioProcessor \<Rightarrow> AudioProcessor" where
  "updateParameters s =
     (let nr_normalized = noise_reduction s / 100;
          integral = nr_normalized * 0.95;
          gravity = 1 - nr_normalized * 0.8;
          gravity' = max gravity 0.2;
          scale = (sensitivity s / 100) * 2.2
      in s\<lparr>integral_factor := integral, gravity_factor := gravity', scale_factor := scale\<rparr>)"

definition setSensitivity :: "int \<Rightarrow> AudioProcessor \<Rightarrow> AudioProcessor" where
  "setSensitivity v s =
     updateParameters (s\<lparr>sensitivity := max 10 (min 300 (real_of_int v))\<rparr>)"

definition setNoiseReduction :: "int \<Rightarrow> AudioProcessor \<Rightarrow> AudioProcessor" where
  "setNoiseReduction v s =
     updateParameters (s\<lparr>noise_reduction := max 0 (min 100 (real_of_int v))\<rparr>)"

definition setSleepState :: "bool \<Rightarrow> AudioProcessor \<Rightarrow> AudioProcessor" where
  "setSleepState sleeping s = s\<lparr>ap_is_sleeping := sleeping\<rparr>"

text \<open>
  The constructor: zeroed buffers (\<^verbatim>\<open>new float[buffer_size]()\<close>), the member
  initialisers, then \<^verbatim>\<open>updateParameters()\<close> and the first time stamp.
\<close>

definition AudioProcessor_init :: "time_point \<Rightarrow> AudioProcessor" where
  "AudioProcessor_init now =
     updateParameters
       \<lparr> ap_is_sleeping = False,
         circular_buffer_left = replicate BUFFER_SIZE 0,
         circular_buffer_right = replicate BUFFER_SIZE 0,
         write_pos = 0,
         prev_left_spectrum = replicate 7 0,
         prev_right_spectrum = replicate 7 0,
         noise_reduction = 77,
         sensitivity = 100,
         integral_factor = 0,
         gravity_factor = 0,
         scale_factor = 0,
         last_audio_time = now,
         max_amplitude = 0 \<rparr>"

subsection \<open>The capture loop: \<^verbatim>\<open>audioThreadFunc\<close>\<close>

text \<open>
  What \<^verbatim>\<open>snd_pcm_readi\<close> followed by \<^verbatim>\<open>snd_pcm_recover\<close> leaves in \<^verbatim>\<open>frames\<close> and
  \<^verbatim>\<open>audio_buffer\<close>: the frames read, or, after a failed read, the return value of
  the recovery (0 when the stream recovered, negative otherwise). After a recovery
  the loop goes on with \<^verbatim>\<open>frames = 0\<close>, that is with an empty block.
\<close>

datatype pcm_result = Frames "frame list" | Recovered int

definition frames_to_read :: "AudioProcessor \<Rightarrow> int" where
  "frames_to_read s = (if ap_is_sleeping s then 256 else FRAMES_PER_BUFFER)"

text \<open>The interleaved layout of \<^verbatim>\<open>audio_buffer\<close>: left, right, left, right, ...\<close>

fun interleaved :: "frame list \<Rightarrow> int16 list" where
  "interleaved [] = []"
| "interleaved ((l, r) # fs) = l # r # interleaved fs"

text \<open>The sleeping branch: the peak over all \<^verbatim>\<open>frames * CHANNELS\<close> samples.\<close>

fun peak_loop :: "int16 list \<Rightarrow> real \<Rightarrow> real" where
  "peak_loop [] frame_max = frame_max"
| "peak_loop (x # xs) frame_max = peak_loop xs (max frame_max \<bar>s16_to_float x\<bar>)"

text \<open>
  The awake branch: each frame is stored at \<^verbatim>\<open>pos\<close> in both buffers (with two
  channels the right buffer takes the second sample of the frame), the peak is updated
  from the stored values and \<^verbatim>\<open>pos\<close> advances modulo the capacity.
\<close>

fun write_loop ::
  "frame list \<Rightarrow> real list \<Rightarrow> real list \<Rightarrow> nat \<Rightarrow> real \<Rightarrow> real list \<times> real list \<times> nat \<times> real" where
  "write_loop [] L R pos frame_max = (L, R, pos, frame_max)"
| "write_loop ((l, r) # fs) L R pos frame_max =
     (let L' = L[pos := s16_to_float l];
          R' = R[pos := s16_to_float r];
          fm1 = max frame_max \<bar>L' ! pos\<bar>;
          fm2 = max fm1 \<bar>R' ! pos\<bar>
      in write_loop fs L' R' ((pos + 1) mod BUFFER_SIZE) fm2)"

text \<open>
  Lines 836-849: the write into the ring buffer under \<^verbatim>\<open>buffer_mutex\<close>. Returns the
  state with buffers and cursor updated, and the peak of the block.
\<close>

definition write_samples :: "frame list \<Rightarrow> AudioProcessor \<Rightarrow> AudioProcessor \<times> real" where
  "write_samples fs s =
     (case write_loop fs (circular_buffer_left s) (circular_buffer_right s) (write_pos s) 0 of
        (L, R, pos, frame_max) \<Rightarrow>
          (s\<lparr>circular_buffer_left := L, circular_buffer_right := R, write_pos := pos\<rparr>,
           frame_max))"

text \<open>Both branches end the same way: publish the peak, refresh the time stamp.\<close>

definition note_peak :: "time_point \<Rightarrow> real \<Rightarrow> AudioProcessor \<Rightarrow> AudioProcessor" where
  "note_peak now frame_max s =
     (let s' = s\<lparr>max_amplitude := frame_max\<rparr>
      in if frame_max > SILENCE_THRESHOLD then s'\<lparr>last_audio_time := now\<rparr> else s')"

definition process_block :: "time_point \<Rightarrow> frame list \<Rightarrow> AudioProcessor \<Rightarrow> AudioProcessor" where
  "process_block now fs s =
     (if ap_is_sleeping s then note_peak now (peak_loop (interleaved fs) 0) s
      else (case write_samples fs s of (s', frame_max) \<Rightarrow> note_peak now frame_max s'))"

text \<open>
  One pass of the \<^verbatim>\<open>while (thread_running)\<close> body. The device is a function of the
  number of frames asked for; \<^verbatim>\<open>now\<close> is what \<^verbatim>\<open>steady_clock::now()\<close> returns in this
  pass.
\<close>

definition audioThread_iteration ::
  "(int \<Rightarrow> pcm_result) \<Rightarrow> time_point \<Rightarrow> AudioProcessor \<Rightarrow> AudioProcessor" where
  "audioThread_iteration readi now s =
     (case readi (frames_to_read s) of
        Recovered r \<Rightarrow> if r < 0 then s else process_block now [] s
      | Frames fs \<Rightarrow> process_block now fs s)"

text \<open>
  The peak amplitude of a block, as a set maximum: the largest magnitude among its
  normalised samples, 0 for an empty block.
\<close>

definition block_peak :: "frame list \<Rightarrow> real" where
  "block_peak fs = Max (insert 0 ((\<lambda>x. \<bar>s16_to_float x\<bar>) ` set (interleaved fs)))"

subsection \<open>\<^verbatim>\<open>checkForAudio\<close>\<close>

text \<open>
  \<^verbatim>\<open>duration_cast<seconds>\<close> truncates the nanosecond count towards zero, as C++
  integer division does.
\<close>

definition trunc_div :: "int \<Rightarrow> int \<Rightarrow> int" where
  "trunc_div a b =
     (if (a < 0) = (b < 0) then \<bar>a\<bar> div \<bar>b\<bar> else - (\<bar>a\<bar> div \<bar>b\<bar>))"

definition checkForAudio :: "time_point \<Rightarrow> AudioProcessor \<Rightarrow> bool" where
  "checkForAudio now s =
     (let elapsed = trunc_div (now - last_audio_time s) 1000000000
      in elapsed < SLEEP_TIMEOUT_SEC)"

subsection \<open>Reading the ring buffer: \<^verbatim>\<open>getWaveformData\<close>\<close>

fun read_loop :: "nat \<Rightarrow> real list \<Rightarrow> nat \<Rightarrow> real list" where
  "read_loop 0 buf read_pos = []"
| "read_loop (Suc n) buf read_pos = buf ! read_pos # read_loop n buf ((read_pos + 1) mod BUFFER_SIZE)"

text \<open>
  \<^verbatim>\<open>(write_pos + FFT_SIZE_BASS * 2 - samples) % (FFT_SIZE_BASS * 2)\<close> is \<^verbatim>\<open>size_t\<close>
  arithmetic: \<^verbatim>\<open>samples\<close> is converted to \<^verbatim>\<open>size_t\<close> and the sum wraps modulo
  \<open>2 ^ 64\<close> before the remainder is taken (modulo \<open>2 ^ 32\<close> on a 32-bit target; the
  capacity divides both, so the remainder is the same).
\<close>

definition start_pos :: "nat \<Rightarrow> int \<Rightarrow> nat" where
  "start_pos wp samples = nat (((int wp + FFT_SIZE_BASS * 2 - samples) mod 2 ^ 64) mod (FFT_SIZE_BASS * 2))"

definition getWaveformData :: "AudioProcessor \<Rightarrow> int \<Rightarrow> bool \<Rightarrow> real list" where
  "getWaveformData s samples left_channel =
     read_loop (nat samples)
       (if left_channel then circular_buffer_left s else circular_buffer_right s)
       (start_pos (write_pos s) samples)"

text \<open>The invariant of the ring buffer that the constructor establishes.\<close>

definition buffer_ok :: "AudioProcessor \<Rightarrow> bool" where
  "buffer_ok s \<longleftrightarrow>
     length (circular_buffer_left s) = BUFFER_SIZE \<and>
     length (circular_buffer_right s) = BUFFER_SIZE \<and>
     write_pos s < BUFFER_SIZE"

subsection \<open>\<^verbatim>\<open>getStereoAnalysis\<close>\<close>

definition ANALYSIS_SAMPLES :: int where "ANALYSIS_SAMPLES = 512"

text \<open>
  The C library's \<^verbatim>\<open>atan2f(y, x)\<close>: the angle of the point \<open>(x, y)\<close>, in \<open>(-\<pi>, \<pi>]\<close>.
\<close>

definition atan2f :: "real \<Rightarrow> real \<Rightarrow> real" where
  "atan2f y x =
     (if 0 < x then arctan (y / x)
      else if x < 0 \<and> 0 \<le> y then arctan (y / x) + pi
      else if x < 0 then arctan (y / x) - pi
      else if 0 < y then pi / 2
      else if y < 0 then - (pi / 2)
      else 0)"

fun phase_loop :: "real list \<Rightarrow> real list \<Rightarrow> real \<Rightarrow> real" where
  "phase_loop (l # ls) (r # rs) sum_phase =
     phase_loop ls rs
       (if \<bar>l\<bar> > 0.01 \<and> \<bar>r\<bar> > 0.01 then sum_phase + atan2f r l else sum_phase)"
| "phase_loop _ _ sum_phase = sum_phase"

record corr_sums =
  sum_l :: real
  sum_r :: real
  sum_lr :: real
  sum_l2 :: real
  sum_r2 :: real

fun corr_loop :: "real list \<Rightarrow> real list \<Rightarrow> corr_sums \<Rightarrow> corr_sums" where
  "corr_loop (l # ls) (r # rs) a =
     corr_loop ls rs
       \<lparr> sum_l = sum_l a + l, sum_r = sum_r a + r, sum_lr = sum_lr a + l * r,
         sum_l2 = sum_l2 a + l * l, sum_r2 = sum_r2 a + r * r \<rparr>"
| "corr_loop _ _ a = a"

text \<open>The part of \<^verbatim>\<open>getStereoAnalysis\<close> after the copy, on the two local arrays.\<close>

definition stereo_phase :: "real list \<Rightarrow> real list \<Rightarrow> real" where
  "stereo_phase left right = phase_loop left right 0 / real_of_int ANALYSIS_SAMPLES"

definition stereo_correlation :: "real list \<Rightarrow> real list \<Rightarrow> real" where
  "stereo_correlation left right =
     (let a = corr_loop left right \<lparr>sum_l = 0, sum_r = 0, sum_lr = 0, sum_l2 = 0, sum_r2 = 0\<rparr>;
          n = real_of_int ANALYSIS_SAMPLES;
          num = n * sum_lr a - sum_l a * sum_r a;
          den = sqrt ((n * sum_l2 a - sum_l a * sum_l a) * (n * sum_r2 a - sum_r a * sum_r a));
          correlation = (if den > 0 then num / den else 0)
      in max (- 1) (min 1 correlation))"

text \<open>The two local arrays: the 512 most recent samples of each channel.\<close>

definition stereo_left :: "AudioProcessor \<Rightarrow> real list" where
  "stereo_left s =
     read_loop (nat ANALYSIS_SAMPLES) (circular_buffer_left s)
       (start_pos (write_pos s) ANALYSIS_SAMPLES)"

definition stereo_right :: "AudioProcessor \<Rightarrow> real list" where
  "stereo_right s =
     read_loop (nat ANALYSIS_SAMPLES) (circular_buffer_right s)
       (start_pos (write_pos s) ANALYSIS_SAMPLES)"

text \<open>Returns \<^verbatim>\<open>(phase, correlation)\<close>.\<close>

definition getStereoAnalysis :: "AudioProcessor \<Rightarrow> real \<times> real" where
  "getStereoAnalysis s =
     (stereo_phase (stereo_left s) (stereo_right s),
      stereo_correlation (stereo_left s) (stereo_right s))"

text \<open>
  The specification's reading of the phase: the arithmetic mean of the angle over the
  qualifying samples only, and 0 when there is none.
\<close>

definition qualifying :: "real list \<Rightarrow> real list \<Rightarrow> (real \<times> real) list" where
  "qualifying left right = filter (\<lambda>(l, r). \<bar>l\<bar> > 0.01 \<and> \<bar>r\<bar> > 0.01) (zip left right)"

definition spec_mean_phase :: "real list \<Rightarrow> real list \<Rightarrow> real" where
  "spec_mean_phase left right =
     (let q = qualifying left right
      in if q = [] then 0
         else sum_list (map (\<lambda>(l, r). atan2f r l) q) / real (length q))"





subsection \<open>\<^verbatim>\<open>getSpectrumData\<close>\<close>

record FreqBand =
  low :: int
  high :: int
  correction :: real

definition FREQ_BANDS :: "FreqBand list" where
  "FREQ_BANDS =
     [\<lparr>low = 63, high = 120, correction = 0.5\<rparr>,
      \<lparr>low = 120, high = 350, correction = 1.0\<rparr>,
      \<lparr>low = 350, high = 900, correction = 2.0\<rparr>,
      \<lparr>low = 900, high = 2000, correction = 3.5\<rparr>,
      \<lparr>low = 2000, high = 5000, correction = 5.0\<rparr>,
      \<lparr>low = 5000, high = 10000, correction = 7.0\<rparr>,
      \<lparr>low = 10000, high = 16000, correction = 10.0\<rparr>]"

text \<open>
  \<^verbatim>\<open>FREQ_BANDS[i].low * FFT_SIZE_BASS / SAMPLE_RATE\<close> in C++ \<^verbatim>\<open>int\<close> arithmetic: the
  product is a 32-bit signed value and the division truncates.
\<close>

definition INT_MAX :: int where "INT_MAX = 2 ^ 31 - 1"

definition low_idx :: "FreqBand \<Rightarrow> int" where
  "low_idx b = trunc_div (low b * FFT_SIZE_BASS) SAMPLE_RATE"

definition high_idx :: "FreqBand \<Rightarrow> int" where
  "high_idx b = trunc_div (high b * FFT_SIZE_BASS) SAMPLE_RATE"

text \<open>The divisor of line 1002 (and 1022): \<^verbatim>\<open>high_idx - low_idx\<close>.\<close>

definition bin_count :: "FreqBand \<Rightarrow> int" where
  "bin_count b = high_idx b - low_idx b"

text \<open>The bins the inner loop visits: \<^verbatim>\<open>j = low_idx; j < high_idx && j < FFT_SIZE_BASS/2\<close>.\<close>

definition band_bins :: "FreqBand \<Rightarrow> int list" where
  "band_bins b = [low_idx b .. min (high_idx b) (FFT_SIZE_BASS div 2) - 1]"

text \<open>
  \<^verbatim>\<open>fft_out_bass\<close> after \<^verbatim>\<open>fftwf_execute\<close> is a function from the bin index to the pair
  (real part, imaginary part).
\<close>

type_synonym fft_out = "int \<Rightarrow> real \<times> real"

definition band_sum :: "fft_out \<Rightarrow> FreqBand \<Rightarrow> real" where
  "band_sum out b =
     foldl (\<lambda>sum j.
        let mag = sqrt (fst (out j) * fst (out j) + snd (out j) * snd (out j))
        in sum + mag * mag) 0 (band_bins b)"

definition band_level :: "fft_out \<Rightarrow> real \<Rightarrow> FreqBand \<Rightarrow> real" where
  "band_level out scale b =
     sqrt (band_sum out b / real_of_int (bin_count b)) * scale * correction b"

definition createHannWindow :: "nat \<Rightarrow> real list" where
  "createHannWindow n =
     map (\<lambda>i. 0.5 * (1 - cos (2 * pi * real i / real_of_int (int n - 1)))) [0..<n]"

text \<open>
  The smoothing of one band (lines 1027-1038): the blend with the previous level, and
  the fall at the rate \<^verbatim>\<open>gravity_factor\<close> when the blend is below it. Returns the new
  \<^verbatim>\<open>prev_*_spectrum[i]\<close>.
\<close>

definition smooth_band :: "real \<Rightarrow> real \<Rightarrow> real \<Rightarrow> real \<Rightarrow> real" where
  "smooth_band integral gravity prev band =
     (let smoothed = integral * prev + (1 - integral) * band
      in if smoothed < prev
         then (let fall = (prev - smoothed) * gravity;
                   prev' = prev - fall
               in max prev' smoothed)
         else smoothed)"

text \<open>The conversion \<^verbatim>\<open>(int)x\<close> of a float: truncation towards zero.\<close>

definition float_to_int :: "real \<Rightarrow> int" where
  "float_to_int x = (if 0 \<le> x then \<lfloor>x\<rfloor> else \<lceil>x\<rceil>)"

definition level_out :: "real \<Rightarrow> int" where
  "level_out prev = min 255 (max 0 (float_to_int prev))"

text \<open>
  \<^verbatim>\<open>getSpectrumData\<close>. The transform itself belongs to the FFTW library and is a
  parameter: \<^verbatim>\<open>fft\<close> maps the windowed input array to the output bins. Returns
  \<^verbatim>\<open>left_out\<close>, \<^verbatim>\<open>right_out\<close> and the processor with the smoothing state updated.
\<close>

definition getSpectrumData ::
  "(real list \<Rightarrow> fft_out) \<Rightarrow> AudioProcessor \<Rightarrow> int list \<times> int list \<times> AudioProcessor" where
  "getSpectrumData fft s =
     (let n = nat FFT_SIZE_BASS;
          read_pos = start_pos (write_pos s) FFT_SIZE_BASS;
          temp_left = read_loop n (circular_buffer_left s) read_pos;
          temp_right = read_loop n (circular_buffer_right s) read_pos;
          window_bass = createHannWindow n;
          out_left = fft (map2 (*) temp_left window_bass);
          left_bands = map (band_level out_left (scale_factor s)) FREQ_BANDS;
          out_right = fft (map2 (*) temp_right window_bass);
          right_bands = map (band_level out_right (scale_factor s)) FREQ_BANDS;
          prev_left = map (\<lambda>i. smooth_band (integral_factor s) (gravity_factor s)
                               (prev_left_spectrum s ! i) (left_bands ! i)) [0..<7];
          prev_right = map (\<lambda>i. smooth_band (integral_factor s) (gravity_factor s)
                               (prev_right_spectrum s ! i) (right_bands ! i)) [0..<7]
      in (map level_out prev_left, map level_out prev_right,
          s\<lparr>prev_left_spectrum := prev_left, prev_right_spectrum := prev_right\<rparr>))"

subsection \<open>\<^verbatim>\<open>MPDClient\<close>: the track metadata and its formatted text\<close>

text \<open>
  \<^verbatim>\<open>conn\<close> records whether the connection pointer is non-null. The song that
  \<^verbatim>\<open>mpd_run_current_song\<close> returns carries its queue position and the tags the
  client reads; a tag that the song does not have is \<open>None\<close>.
\<close>

record MPDClient =
  conn :: bool
  shutdown_requested :: bool
  mpd_is_sleeping :: bool
  track_number :: string
  title :: string
  artist :: string
  year :: string
  formatted_text :: string

record mpd_song =
  song_pos :: "32 word"
  tag_title :: "string option"
  tag_artist :: "string option"
  tag_date :: "string option"

datatype mpd_reply = MpdError | NoSong | CurrentSong mpd_song

text \<open>\<^verbatim>\<open>std::to_string\<close> of an unsigned value: its decimal digits.\<close>

definition digit_char :: "nat \<Rightarrow> char" where
  "digit_char d = ''0123456789'' ! d"

fun to_string :: "nat \<Rightarrow> string" where
  "to_string n = (if n < 10 then [digit_char n] else to_string (n div 10) @ [digit_char (n mod 10)])"

text \<open>\<^verbatim>\<open>ss << std::setfill(c) << std::setw(w) << str\<close>: padding on the left up to the width.\<close>

definition setfill_setw :: "char \<Rightarrow> nat \<Rightarrow> string \<Rightarrow> string" where
  "setfill_setw c w str = replicate (w - length str) c @ str"

definition updateFormattedText :: "MPDClient \<Rightarrow> MPDClient" where
  "updateFormattedText c =
     c\<lparr>formatted_text :=
         (if track_number c \<noteq> [] then setfill_setw CHR ''0'' 2 (track_number c) @ ''. '' else [])
         @ (if title c \<noteq> [] then title c else ''Unknown Title'')
         @ (if artist c \<noteq> [] then '' - '' @ artist c else [])
         @ (if year c \<noteq> [] then '' ('' @ year c @ '')'' else [])\<rparr>"

text \<open>\<^verbatim>\<open>tag ? tag : ""\<close>\<close>

definition tag_or_empty :: "string option \<Rightarrow> string" where
  "tag_or_empty tag = (case tag of Some t \<Rightarrow> t | None \<Rightarrow> [])"

definition year_of_date :: "string option \<Rightarrow> string" where
  "year_of_date tag =
     (case tag of
        Some t \<Rightarrow> if length t \<ge> 4 then take 4 t else []
      | None \<Rightarrow> [])"

text \<open>
  \<^verbatim>\<open>updateCurrentSong\<close>, given the reply of the service to
  \<^verbatim>\<open>mpd_run_current_song\<close>.
\<close>

definition updateCurrentSong :: "mpd_reply \<Rightarrow> MPDClient \<Rightarrow> MPDClient" where
  "updateCurrentSong reply c =
     (if \<not> conn c \<or> shutdown_requested c \<or> mpd_is_sleeping c then c
      else case reply of
        MpdError \<Rightarrow> c\<lparr>conn := False\<rparr>
      | CurrentSong song \<Rightarrow>
          updateFormattedText
            (c\<lparr>track_number := to_string (unat (song_pos song + 1)),
               title := tag_or_empty (tag_title song),
               artist := tag_or_empty (tag_artist song),
               year := year_of_date (tag_date song)\<rparr>)
      | NoSong \<Rightarrow>
          updateFormattedText
            (c\<lparr>track_number := [], title := ''No song playing'', artist := [], year := []\<rparr>))"

definition MPDClient_init :: MPDClient where
  "MPDClient_init =
     updateFormattedText
       \<lparr> conn = False, shutdown_requested = False, mpd_is_sleeping = False,
         track_number = [], title = ''Waiting for MPD...'', artist = [], year = [],
         formatted_text = [] \<rparr>"

text \<open>\<^verbatim>\<open>MPDClient::setSleepState\<close>: \<^verbatim>\<open>is_sleeping.exchange(sleeping)\<close>.\<close>

definition mpd_setSleepState :: "bool \<Rightarrow> MPDClient \<Rightarrow> MPDClient" where
  "mpd_setSleepState sleeping c = c\<lparr>mpd_is_sleeping := sleeping\<rparr>"

text \<open>
  The display string as the specification words it: \<open>NN. Title - Artist (Year)\<close>, the
  year being the first four characters of the date, and every missing component left
  out together with its separator.
\<close>

definition spec_display :: "string \<Rightarrow> string \<Rightarrow> string \<Rightarrow> string \<Rightarrow> string" where
  "spec_display nn ttl art yr =
     (if nn \<noteq> [] then nn @ ''. '' else [])
     @ ttl
     @ (if art \<noteq> [] then '' - '' @ art else [])
     @ (if yr \<noteq> [] then '' ('' @ yr @ '')'' else [])"

definition spec_song_display :: "mpd_song \<Rightarrow> string" where
  "spec_song_display song =
     spec_display
       (setfill_setw CHR ''0'' 2 (to_string (unat (song_pos song) + 1)))
       (tag_or_empty (tag_title song))
       (tag_or_empty (tag_artist song))
       (take 4 (tag_or_empty (tag_date song)))"

subsection \<open>\<^verbatim>\<open>VisualizerApp::run\<close>: the power-state coordinator\<close>

record ControlState =
  running :: bool
  current_viz :: int
  st_is_sleeping :: bool

text \<open>
  The calls that a pass of the main loop makes on its collaborators, in the order the
  code makes them. \<open>EnterSleep\<close> and \<open>WakeUp\<close> stand for the two messages the loop
  prints when it changes the power state.
\<close>

datatype display = LeftDisplay | RightDisplay

datatype event =
    EnterSleep
  | WakeUp
  | AudioSetSleepState bool
  | MpdSetSleepState bool
  | DisplaySleep display
  | DisplayWake display
  | DisplayClear display
  | DisplayDisplay display
  | SetPowerLED bool
  | SetSPISpeedSlow
  | SetSPISpeedNormal

record VisualizerApp =
  audio :: AudioProcessor
  state :: ControlState
  mpd_client :: "MPDClient option"
  trace :: "event list"

text \<open>
  The constructor leaves \<^verbatim>\<open>mpd_client\<close> pointing to a new client; \<^verbatim>\<open>ControlState\<close>
  starts awake.
\<close>

definition VisualizerApp_init :: "time_point \<Rightarrow> VisualizerApp" where
  "VisualizerApp_init now =
     \<lparr> audio = AudioProcessor_init now,
       state = \<lparr>running = True, current_viz = 0, st_is_sleeping = False\<rparr>,
       mpd_client = Some MPDClient_init,
       trace = [] \<rparr>"

text \<open>
  Lines 2058-2107, with \<^verbatim>\<open>has_audio\<close> the value \<^verbatim>\<open>audio.checkForAudio()\<close> returned.
\<close>

definition coordinator :: "bool \<Rightarrow> VisualizerApp \<Rightarrow> VisualizerApp" where
  "coordinator has_audio app =
     (if \<not> has_audio \<and> \<not> st_is_sleeping (state app) then
        app\<lparr> state := (state app)\<lparr>st_is_sleeping := True\<rparr>,
             audio := setSleepState True (audio app),
             mpd_client := map_option (mpd_setSleepState True) (mpd_client app),
             trace := trace app
               @ [EnterSleep, AudioSetSleepState True]
               @ (if mpd_client app \<noteq> None then [MpdSetSleepState True] else [])
               @ [DisplaySleep LeftDisplay, DisplaySleep RightDisplay, SetPowerLED False,
                  SetSPISpeedSlow] \<rparr>
      else if has_audio \<and> st_is_sleeping (state app) then
        app\<lparr> state := (state app)\<lparr>st_is_sleeping := False\<rparr>,
             audio := setSleepState False (audio app),
             mpd_client := map_option (mpd_setSleepState False) (mpd_client app),
             trace := trace app
               @ [WakeUp, SetSPISpeedNormal, AudioSetSleepState False]
               @ (if mpd_client app \<noteq> None then [MpdSetSleepState False] else [])
               @ [DisplayWake LeftDisplay, DisplayWake RightDisplay, SetPowerLED True,
                  DisplayClear LeftDisplay, DisplayClear RightDisplay,
                  DisplayDisplay LeftDisplay, DisplayDisplay RightDisplay] \<rparr>
      else app)"

subsection \<open>The states an \<^verbatim>\<open>AudioProcessor\<close> can reach\<close>

text \<open>
  From the constructor, by the public operations and by passes of the capture thread.
\<close>

inductive reachable :: "AudioProcessor \<Rightarrow> bool" where
  init: "reachable (AudioProcessor_init now)"
| set_sensitivity: "reachable s \<Longrightarrow> reachable (setSensitivity v s)"
| set_noise_reduction: "reachable s \<Longrightarrow> reachable (setNoiseReduction v s)"
| set_sleep_state: "reachable s \<Longrightarrow> reachable (setSleepState b s)"
| capture: "reachable s \<Longrightarrow> reachable (audioThread_iteration readi now s)"
| spectrum: "reachable s \<Longrightarrow> reachable (snd (snd (getSpectrumData fft s)))"


section \<open>Properties\<close>

subsection \<open>The ring buffer\<close>

lemma BUFFER_SIZE_eq: "BUFFER_SIZE = 16384"
  by (simp add: BUFFER_SIZE_def FFT_SIZE_BASS_def)

lemma write_loop_length:
  "length (fst (write_loop fs L R pos fm)) = length L \<and>
   length (fst (snd (write_loop fs L R pos fm))) = length R"
  by (induction fs L R pos fm rule: write_loop.induct) (simp_all add: Let_def)

lemma write_loop_pos:
  "pos < BUFFER_SIZE \<Longrightarrow>
   fst (snd (snd (write_loop fs L R pos fm))) = (pos + length fs) mod BUFFER_SIZE"
proof (induction fs L R pos fm rule: write_loop.induct)
  case (1 L R pos frame_max)
  then show ?case by simp
next
  case (2 l r fs L R pos frame_max)
  have "(pos + 1) mod BUFFER_SIZE < BUFFER_SIZE"
    by (simp add: BUFFER_SIZE_eq)
  with 2 show ?case
    by (simp add: Let_def mod_add_left_eq)
qed

lemma write_loop_left_other:
  "q < length L \<Longrightarrow> length L = BUFFER_SIZE \<Longrightarrow>
   \<forall>j<length fs. (pos + j) mod BUFFER_SIZE \<noteq> q \<Longrightarrow>
   fst (write_loop fs L R pos fm) ! q = L ! q"
proof (induction fs L R pos fm rule: write_loop.induct)
  case (1 L R pos frame_max)
  then show ?case by simp
next
  case (2 l r fs L R pos frame_max)
  have ne: "pos \<noteq> q"
  proof
    assume "pos = q"
    with 2(2,3) have "(pos + 0) mod BUFFER_SIZE = q" by simp
    with 2(4) show False by force
  qed
  have rest: "\<forall>j<length fs. ((pos + 1) mod BUFFER_SIZE + j) mod BUFFER_SIZE \<noteq> q"
  proof (intro allI impI)
    fix j assume "j < length fs"
    then have "(pos + Suc j) mod BUFFER_SIZE \<noteq> q" using 2(4) by force
    then show "((pos + 1) mod BUFFER_SIZE + j) mod BUFFER_SIZE \<noteq> q"
      by (simp add: mod_add_left_eq)
  qed
  show ?case
    using 2(1)[OF refl refl refl refl, of ] 2(2,3) rest ne
    by (simp add: Let_def)
qed

lemma write_loop_right_other:
  "q < length R \<Longrightarrow> length R = BUFFER_SIZE \<Longrightarrow>
   \<forall>j<length fs. (pos + j) mod BUFFER_SIZE \<noteq> q \<Longrightarrow>
   fst (snd (write_loop fs L R pos fm)) ! q = R ! q"
proof (induction fs L R pos fm rule: write_loop.induct)
  case (1 L R pos frame_max)
  then show ?case by simp
next
  case (2 l r fs L R pos frame_max)
  have ne: "pos \<noteq> q"
  proof
    assume "pos = q"
    with 2(2,3) have "(pos + 0) mod BUFFER_SIZE = q" by simp
    with 2(4) show False by force
  qed
  have rest: "\<forall>j<length fs. ((pos + 1) mod BUFFER_SIZE + j) mod BUFFER_SIZE \<noteq> q"
  proof (intro allI impI)
    fix j assume "j < length fs"
    then have "(pos + Suc j) mod BUFFER_SIZE \<noteq> q" using 2(4) by force
    then show "((pos + 1) mod BUFFER_SIZE + j) mod BUFFER_SIZE \<noteq> q"
      by (simp add: mod_add_left_eq)
  qed
  show ?case
    using 2(1)[OF refl refl refl refl] 2(2,3) rest ne
    by (simp add: Let_def)
qed

lemma mod_once: "(n::nat) \<le> a \<Longrightarrow> a < 2 * n \<Longrightarrow> a mod n = a - n"
  by (simp add: le_mod_geq)

lemma no_wrap_hit:
  assumes "pos < BUFFER_SIZE" "j < BUFFER_SIZE - 1"
  shows "((pos + 1) mod BUFFER_SIZE + j) mod BUFFER_SIZE \<noteq> pos"
proof -
  have eq: "((pos + 1) mod BUFFER_SIZE + j) mod BUFFER_SIZE = (pos + 1 + j) mod BUFFER_SIZE"
    by (simp add: mod_add_left_eq)
  show ?thesis
  proof (cases "pos + 1 + j < BUFFER_SIZE")
    case True
    then show ?thesis unfolding eq by simp
  next
    case False
    then have "(pos + 1 + j) mod BUFFER_SIZE = pos + 1 + j - BUFFER_SIZE"
      using assms by (intro mod_once) linarith+
    then show ?thesis unfolding eq using assms False by linarith
  qed
qed

lemma write_loop_left_nth:
  "length L = BUFFER_SIZE \<Longrightarrow> pos < BUFFER_SIZE \<Longrightarrow> length fs \<le> BUFFER_SIZE \<Longrightarrow>
   i < length fs \<Longrightarrow>
   fst (write_loop fs L R pos fm) ! ((pos + i) mod BUFFER_SIZE) = s16_to_float (fst (fs ! i))"
proof (induction fs L R pos fm arbitrary: i rule: write_loop.induct)
  case (1 L R pos frame_max)
  then show ?case by simp
next
  case (2 l r fs L R pos frame_max)
  let ?L = "L[pos := s16_to_float l]"
  let ?R = "R[pos := s16_to_float r]"
  let ?p = "(pos + 1) mod BUFFER_SIZE"
  let ?fm = "max (max frame_max \<bar>?L ! pos\<bar>) \<bar>?R ! pos\<bar>"
  have unfold: "write_loop ((l, r) # fs) L R pos frame_max = write_loop fs ?L ?R ?p ?fm"
    by (simp add: Let_def)
  have p: "?p < BUFFER_SIZE" by (simp add: BUFFER_SIZE_eq)
  show ?case
  proof (cases i)
    case 0
    have "\<forall>j<length fs. (?p + j) mod BUFFER_SIZE \<noteq> pos"
      using no_wrap_hit[OF 2(3)] 2(4) by auto
    then have "fst (write_loop fs ?L ?R ?p ?fm) ! pos = ?L ! pos"
      using write_loop_left_other[of pos ?L fs ?p ?R ?fm] 2(2,3) by simp
    with 0 2(2,3) show ?thesis by (simp add: unfold del: write_loop.simps)
  next
    case (Suc i')
    have "fst (write_loop fs ?L ?R ?p ?fm) ! ((?p + i') mod BUFFER_SIZE) = s16_to_float (fst (fs ! i'))"
      using 2(1)[OF refl refl refl refl, of i'] 2(2,4,5) p Suc by simp
    moreover have "(?p + i') mod BUFFER_SIZE = (pos + i) mod BUFFER_SIZE"
      using Suc by (simp add: mod_add_left_eq)
    ultimately show ?thesis using Suc by (simp add: unfold del: write_loop.simps)
  qed
qed

lemma write_loop_right_nth:
  "length R = BUFFER_SIZE \<Longrightarrow> pos < BUFFER_SIZE \<Longrightarrow> length fs \<le> BUFFER_SIZE \<Longrightarrow>
   i < length fs \<Longrightarrow>
   fst (snd (write_loop fs L R pos fm)) ! ((pos + i) mod BUFFER_SIZE) = s16_to_float (snd (fs ! i))"
proof (induction fs L R pos fm arbitrary: i rule: write_loop.induct)
  case (1 L R pos frame_max)
  then show ?case by simp
next
  case (2 l r fs L R pos frame_max)
  let ?L = "L[pos := s16_to_float l]"
  let ?R = "R[pos := s16_to_float r]"
  let ?p = "(pos + 1) mod BUFFER_SIZE"
  let ?fm = "max (max frame_max \<bar>?L ! pos\<bar>) \<bar>?R ! pos\<bar>"
  have unfold: "write_loop ((l, r) # fs) L R pos frame_max = write_loop fs ?L ?R ?p ?fm"
    by (simp add: Let_def)
  have p: "?p < BUFFER_SIZE" by (simp add: BUFFER_SIZE_eq)
  show ?case
  proof (cases i)
    case 0
    have "\<forall>j<length fs. (?p + j) mod BUFFER_SIZE \<noteq> pos"
      using no_wrap_hit[OF 2(3)] 2(4) by auto
    then have "fst (snd (write_loop fs ?L ?R ?p ?fm)) ! pos = ?R ! pos"
      using write_loop_right_other[of pos ?R fs ?p ?L ?fm] 2(2,3) by simp
    with 0 2(2,3) show ?thesis by (simp add: unfold del: write_loop.simps)
  next
    case (Suc i')
    have "fst (snd (write_loop fs ?L ?R ?p ?fm)) ! ((?p + i') mod BUFFER_SIZE) = s16_to_float (snd (fs ! i'))"
      using 2(1)[OF refl refl refl refl, of i'] 2(2,4,5) p Suc by simp
    moreover have "(?p + i') mod BUFFER_SIZE = (pos + i) mod BUFFER_SIZE"
      using Suc by (simp add: mod_add_left_eq)
    ultimately show ?thesis using Suc by (simp add: unfold del: write_loop.simps)
  qed
qed

lemma read_loop_length: "length (read_loop n buf rp) = n"
  by (induction n buf rp rule: read_loop.induct) simp_all

lemma read_loop_nth:
  "rp < BUFFER_SIZE \<Longrightarrow> i < n \<Longrightarrow> read_loop n buf rp ! i = buf ! ((rp + i) mod BUFFER_SIZE)"
proof (induction n buf rp arbitrary: i rule: read_loop.induct)
  case (1 buf read_pos)
  then show ?case by simp
next
  case (2 n buf read_pos)
  show ?case
  proof (cases i)
    case 0
    with 2(2) show ?thesis by simp
  next
    case (Suc i')
    have p: "(read_pos + 1) mod BUFFER_SIZE < BUFFER_SIZE" by (simp add: BUFFER_SIZE_eq)
    have idx: "((read_pos + 1) mod BUFFER_SIZE + i') mod BUFFER_SIZE = (read_pos + i) mod BUFFER_SIZE"
      using Suc by (simp add: mod_add_left_eq)
    have "i' < n" using 2(3) Suc by simp
    from 2(1)[OF p this] have "read_loop n buf ((read_pos + 1) mod BUFFER_SIZE) ! i' = buf ! ((read_pos + i) mod BUFFER_SIZE)"
      unfolding idx .
    with Suc show ?thesis by simp
  qed
qed

lemma start_pos_after_write:
  assumes "pos < BUFFER_SIZE" "k \<le> BUFFER_SIZE"
  shows "start_pos ((pos + k) mod BUFFER_SIZE) (int k) < BUFFER_SIZE"
    and "(start_pos ((pos + k) mod BUFFER_SIZE) (int k) + i) mod BUFFER_SIZE = (pos + i) mod BUFFER_SIZE"
proof -
  let ?w = "(pos + k) mod BUFFER_SIZE"
  have w: "?w < BUFFER_SIZE" by (simp add: BUFFER_SIZE_eq)
  have small: "0 \<le> int ?w + 16384 - int k" "int ?w + 16384 - int k < 2 ^ 64"
    using assms w by (simp_all add: BUFFER_SIZE_eq)
  then have sp: "start_pos ?w (int k) = (?w + 16384 - k) mod 16384"
    using assms
    by (simp add: start_pos_def FFT_SIZE_BASS_def BUFFER_SIZE_eq nat_mod_distrib nat_add_distrib nat_diff_distrib' of_nat_diff flip: of_nat_mod)
  show "start_pos ?w (int k) < BUFFER_SIZE"
    unfolding sp by (simp add: BUFFER_SIZE_eq)
  have "(start_pos ?w (int k) + i) mod 16384 = ((?w + 16384 - k) mod 16384 + i) mod 16384"
    by (simp only: sp)
  also have "\<dots> = (?w + 16384 - k + i) mod 16384"
    by (simp add: mod_add_left_eq)
  also have "\<dots> = (?w + (16384 - k) + i) mod 16384"
    using assms by (simp add: BUFFER_SIZE_eq)
  also have "\<dots> = ((pos + k) + (16384 - k) + i) mod 16384"
    unfolding BUFFER_SIZE_eq by (metis mod_add_left_eq)
  also have "(pos + k) + (16384 - k) + i = (pos + i) + 16384"
    using assms by (simp add: BUFFER_SIZE_eq)
  also have "((pos + i) + 16384) mod 16384 = (pos + i) mod 16384"
    by (rule mod_add_self2)
  finally have "(start_pos ?w (int k) + i) mod 16384 = (pos + i) mod 16384" .
  then show "(start_pos ?w (int k) + i) mod BUFFER_SIZE = (pos + i) mod BUFFER_SIZE"
    unfolding BUFFER_SIZE_eq .
qed

lemma write_samples_ok:
  assumes "buffer_ok s"
  shows "buffer_ok (fst (write_samples fs s))"
proof -
  obtain L R p fm where w: "write_loop fs (circular_buffer_left s) (circular_buffer_right s) (write_pos s) 0 = (L, R, p, fm)"
    by (metis prod_cases4)
  have "length L = length (circular_buffer_left s)" "length R = length (circular_buffer_right s)"
    using write_loop_length[of fs "circular_buffer_left s" "circular_buffer_right s" "write_pos s" 0] w by simp_all
  moreover have "p = (write_pos s + length fs) mod BUFFER_SIZE"
    using write_loop_pos[of "write_pos s" fs "circular_buffer_left s" "circular_buffer_right s" 0] w assms
    by (simp add: buffer_ok_def)
  ultimately show ?thesis using assms w
    by (simp add: buffer_ok_def write_samples_def BUFFER_SIZE_eq)
qed

lemma read_after_write:
  assumes "buffer_ok s" and "length fs < BUFFER_SIZE"
  shows "getWaveformData (fst (write_samples fs s)) (int (length fs)) True = map (s16_to_float \<circ> fst) fs
       \<and> getWaveformData (fst (write_samples fs s)) (int (length fs)) False = map (s16_to_float \<circ> snd) fs"
proof -
  let ?Ls = "circular_buffer_left s" and ?Rs = "circular_buffer_right s" and ?p = "write_pos s"
  let ?k = "length fs"
  obtain L R p fm where w: "write_loop fs ?Ls ?Rs ?p 0 = (L, R, p, fm)"
    by (metis prod_cases4)
  have inv: "length ?Ls = BUFFER_SIZE" "length ?Rs = BUFFER_SIZE" "?p < BUFFER_SIZE"
    using assms(1) by (simp_all add: buffer_ok_def)
  have k: "?k \<le> BUFFER_SIZE" using assms(2) by simp
  have p: "p = (?p + ?k) mod BUFFER_SIZE"
    using write_loop_pos[OF inv(3), of fs ?Ls ?Rs 0] w by simp
  have s': "fst (write_samples fs s) = s\<lparr>circular_buffer_left := L, circular_buffer_right := R, write_pos := p\<rparr>"
    using w by (simp add: write_samples_def)
  have sp: "start_pos p (int ?k) < BUFFER_SIZE"
    unfolding p by (rule start_pos_after_write(1)[OF inv(3) k])
  have left: "read_loop ?k L (start_pos p (int ?k)) = map (s16_to_float \<circ> fst) fs"
  proof (rule nth_equalityI)
    show "length (read_loop ?k L (start_pos p (int ?k))) = length (map (s16_to_float \<circ> fst) fs)"
      by (simp add: read_loop_length)
  next
    fix i assume "i < length (read_loop ?k L (start_pos p (int ?k)))"
    then have i: "i < ?k" by (simp add: read_loop_length)
    have "read_loop ?k L (start_pos p (int ?k)) ! i = L ! ((start_pos p (int ?k) + i) mod BUFFER_SIZE)"
      by (rule read_loop_nth[OF sp i])
    also have "\<dots> = L ! ((?p + i) mod BUFFER_SIZE)"
      unfolding p by (simp only: start_pos_after_write(2)[OF inv(3) k])
    also have "\<dots> = s16_to_float (fst (fs ! i))"
      using write_loop_left_nth[OF inv(1) inv(3) k i, of ?Rs 0] w by simp
    finally show "read_loop ?k L (start_pos p (int ?k)) ! i = map (s16_to_float \<circ> fst) fs ! i"
      using i by simp
  qed
  have right: "read_loop ?k R (start_pos p (int ?k)) = map (s16_to_float \<circ> snd) fs"
  proof (rule nth_equalityI)
    show "length (read_loop ?k R (start_pos p (int ?k))) = length (map (s16_to_float \<circ> snd) fs)"
      by (simp add: read_loop_length)
  next
    fix i assume "i < length (read_loop ?k R (start_pos p (int ?k)))"
    then have i: "i < ?k" by (simp add: read_loop_length)
    have "read_loop ?k R (start_pos p (int ?k)) ! i = R ! ((start_pos p (int ?k) + i) mod BUFFER_SIZE)"
      by (rule read_loop_nth[OF sp i])
    also have "\<dots> = R ! ((?p + i) mod BUFFER_SIZE)"
      unfolding p by (simp only: start_pos_after_write(2)[OF inv(3) k])
    also have "\<dots> = s16_to_float (snd (fs ! i))"
      using write_loop_right_nth[OF inv(2) inv(3) k i, of ?Ls 0] w by simp
    finally show "read_loop ?k R (start_pos p (int ?k)) ! i = map (s16_to_float \<circ> snd) fs ! i"
      using i by simp
  qed
  show ?thesis
    unfolding s' getWaveformData_def using left right by simp
qed


text \<open>
  Claim C8. Writing a sequence of frames shorter than the capacity of the ring buffer
  (\<open>2 * 8192\<close>) and then reading as many samples back with \<^verbatim>\<open>getWaveformData\<close>
  returns the samples that were written, oldest first, for each channel.
\<close>

theorem ring_buffer_round_trip:
  assumes "buffer_ok s" and "length fs < BUFFER_SIZE"
  shows "BUFFER_SIZE = 2 * 8192
       \<and> getWaveformData (fst (write_samples fs s)) (int (length fs)) True = map (s16_to_float \<circ> fst) fs
       \<and> getWaveformData (fst (write_samples fs s)) (int (length fs)) False = map (s16_to_float \<circ> snd) fs"
  using read_after_write[OF assms] by (simp add: BUFFER_SIZE_eq)

theorem ring_buffer_round_trip_witness:
  "buffer_ok (AudioProcessor_init 0) \<and> length [(1, 2), (3, 4 :: int16)] < BUFFER_SIZE
   \<and> getWaveformData (fst (write_samples [(1, 2), (3, 4)] (AudioProcessor_init 0))) 2 True
       = [1 / 32768, 3 / 32768]
   \<and> getWaveformData (fst (write_samples [(1, 2), (3, 4)] (AudioProcessor_init 0))) 2 False
       = [2 / 32768, 4 / 32768]"
  using ring_buffer_round_trip[of "AudioProcessor_init 0" "[(1, 2), (3, 4)]"]
  by (simp add: buffer_ok_def AudioProcessor_init_def updateParameters_def BUFFER_SIZE_eq
      s16_to_float_def)

subsection \<open>The capture loop and the silence timer\<close>

lemma trunc_div_nonneg: "0 \<le> a \<Longrightarrow> 0 < b \<Longrightarrow> trunc_div a b = a div b"
  by (simp add: trunc_div_def)

lemma trunc_div_neg: "a < 0 \<Longrightarrow> 0 < b \<Longrightarrow> trunc_div a b = - ((- a) div b)"
  by (simp add: trunc_div_def)

lemma trunc_div_less_iff:
  assumes "0 < b" "0 < k"
  shows "trunc_div a b < k \<longleftrightarrow> a < k * b"
proof (cases "0 \<le> a")
  case True
  have "a div b < k \<longleftrightarrow> \<lfloor>real_of_int a / real_of_int b\<rfloor> < k"
    by (simp only: floor_divide_of_int_eq)
  also have "\<dots> \<longleftrightarrow> real_of_int a / real_of_int b < real_of_int k"
    by (rule floor_less_iff)
  also have "\<dots> \<longleftrightarrow> real_of_int a < real_of_int k * real_of_int b"
    using assms(1) by (simp add: pos_divide_less_eq)
  also have "\<dots> \<longleftrightarrow> a < k * b"
    by (simp only: of_int_less_iff flip: of_int_mult)
  finally have "a div b < k \<longleftrightarrow> a < k * b" .
  with True assms show ?thesis by (simp add: trunc_div_nonneg)
next
  case False
  then have a: "a < 0" by simp
  then have "0 \<le> (- a) div b" using assms(1) by (simp add: pos_imp_zdiv_nonneg_iff)
  then have "trunc_div a b \<le> 0" using a assms(1) by (simp add: trunc_div_neg)
  moreover have "0 < k * b" using assms by simp
  ultimately show ?thesis using a assms by linarith
qed


lemma peak_loop_Max:
  "peak_loop xs fm = Max (insert fm ((\<lambda>x. \<bar>s16_to_float x\<bar>) ` set xs))"
proof (induction xs arbitrary: fm)
  case Nil
  then show ?case by simp
next
  case (Cons x xs)
  let ?f = "\<lambda>x. \<bar>s16_to_float x\<bar>"
  have "peak_loop (x # xs) fm = Max (insert (max fm (?f x)) (?f ` set xs))"
    using Cons by simp
  also have "\<dots> = max (max fm (?f x)) (Max (insert (?f x) (?f ` set xs)))"
    by (cases "set xs = {}") (simp_all add: max.assoc)
  also have "\<dots> = Max (insert fm (insert (?f x) (?f ` set xs)))"
    by (simp add: max.assoc)
  finally show ?case by simp
qed

lemma write_loop_peak:
  "length L = BUFFER_SIZE \<Longrightarrow> length R = BUFFER_SIZE \<Longrightarrow> pos < BUFFER_SIZE \<Longrightarrow>
   snd (snd (snd (write_loop fs L R pos fm))) = peak_loop (interleaved fs) fm"
proof (induction fs L R pos fm rule: write_loop.induct)
  case (1 L R pos frame_max)
  then show ?case by simp
next
  case (2 l r fs L R pos frame_max)
  have p: "(pos + 1) mod BUFFER_SIZE < BUFFER_SIZE" by (simp add: BUFFER_SIZE_eq)
  show ?case
    using 2(1)[OF refl refl refl refl] 2(2,3,4) p by (simp add: Let_def)
qed

lemma process_block_last_audio_time:
  assumes "buffer_ok s"
  shows "last_audio_time (process_block now fs s) =
           (if block_peak fs > SILENCE_THRESHOLD then now else last_audio_time s)"
proof (cases "ap_is_sleeping s")
  case True
  then show ?thesis
    by (simp add: process_block_def note_peak_def block_peak_def peak_loop_Max Let_def)
next
  case False
  obtain L R p fm where w: "write_loop fs (circular_buffer_left s) (circular_buffer_right s) (write_pos s) 0 = (L, R, p, fm)"
    by (metis prod_cases4)
  have "fm = peak_loop (interleaved fs) 0"
    using write_loop_peak[of "circular_buffer_left s" "circular_buffer_right s" "write_pos s" fs 0] w assms
    by (simp add: buffer_ok_def)
  then have "fm = block_peak fs"
    by (simp add: block_peak_def peak_loop_Max)
  with False w show ?thesis
    by (simp add: process_block_def write_samples_def note_peak_def Let_def)
qed

text \<open>
  Claim C7. \<^verbatim>\<open>checkForAudio\<close> is true exactly when less than the fixed 10 seconds have
  passed since the last-active time stamp; and a capture iteration that reads a block,
  in the awake as in the sleeping state, sets the time stamp to the current time when
  the peak amplitude of the block exceeds the fixed silence threshold, and leaves it
  alone otherwise.
\<close>

theorem check_for_audio_timeout:
  "(checkForAudio now s \<longleftrightarrow> now - last_audio_time s < 10 * 1000000000)
   \<and> SILENCE_THRESHOLD = 0.001
   \<and> (buffer_ok s \<and> readi (frames_to_read s) = Frames fs \<longrightarrow>
        last_audio_time (audioThread_iteration readi t s) =
          (if block_peak fs > SILENCE_THRESHOLD then t else last_audio_time s))"
proof -
  have "checkForAudio now s \<longleftrightarrow> now - last_audio_time s < 10 * 1000000000"
    using trunc_div_less_iff[of 1000000000 10 "now - last_audio_time s"]
    by (simp add: checkForAudio_def SLEEP_TIMEOUT_SEC_def)
  moreover have "buffer_ok s \<and> readi (frames_to_read s) = Frames fs \<longrightarrow>
        last_audio_time (audioThread_iteration readi t s) =
          (if block_peak fs > SILENCE_THRESHOLD then t else last_audio_time s)"
    using process_block_last_audio_time[of s t fs]
    by (simp add: audioThread_iteration_def)
  ultimately show ?thesis by (simp add: SILENCE_THRESHOLD_def)
qed

lemma init_buffer_ok: "buffer_ok (AudioProcessor_init now)"
  by (simp add: buffer_ok_def AudioProcessor_init_def updateParameters_def BUFFER_SIZE_eq)

theorem check_for_audio_timeout_witness:
  "buffer_ok (AudioProcessor_init 0)
   \<and> (\<lambda>n. Frames [(100, 0)]) (frames_to_read (AudioProcessor_init 0)) = Frames [(100, 0)]
   \<and> block_peak [(100, 0)] > SILENCE_THRESHOLD
   \<and> last_audio_time (audioThread_iteration (\<lambda>n. Frames [(100, 0)]) 5 (AudioProcessor_init 0)) = 5
   \<and> checkForAudio 9999999999 (AudioProcessor_init 0)
   \<and> \<not> checkForAudio 10000000000 (AudioProcessor_init 0)"
proof -
  have peak: "block_peak [(100, 0)] > SILENCE_THRESHOLD"
    by (simp add: block_peak_def SILENCE_THRESHOLD_def s16_to_float_def)
  have last0: "last_audio_time (AudioProcessor_init 0) = 0"
    by (simp add: AudioProcessor_init_def updateParameters_def)
  show ?thesis
    using check_for_audio_timeout[of 9999999999 "AudioProcessor_init 0" "\<lambda>n. Frames [(100, 0)]" "[(100, 0)]" 5]
      check_for_audio_timeout[of 10000000000 "AudioProcessor_init 0" "\<lambda>n. Frames [(100, 0)]" "[(100, 0)]" 5]
      peak init_buffer_ok[of 0] last0
    by simp
qed

text \<open>
  Claim C9. While the processor is asleep, a capture iteration asks the device for 256
  frames (2048 when awake), and whatever the device returns, the iteration changes
  nothing but the peak amplitude and the last-active time stamp: the two circular
  buffers and the write cursor are as before.
\<close>

theorem asleep_iteration_frame:
  assumes "ap_is_sleeping s"
  shows "frames_to_read s = 256
       \<and> frames_to_read (setSleepState False s) = 2048
       \<and> audioThread_iteration readi now s =
           s\<lparr>max_amplitude := max_amplitude (audioThread_iteration readi now s),
             last_audio_time := last_audio_time (audioThread_iteration readi now s)\<rparr>
       \<and> circular_buffer_left (audioThread_iteration readi now s) = circular_buffer_left s
       \<and> circular_buffer_right (audioThread_iteration readi now s) = circular_buffer_right s
       \<and> write_pos (audioThread_iteration readi now s) = write_pos s"
proof -
  have pb: "process_block now fs s =
      s\<lparr>max_amplitude := max_amplitude (process_block now fs s),
        last_audio_time := last_audio_time (process_block now fs s)\<rparr>" for fs
    using assms by (simp add: process_block_def note_peak_def Let_def)
  have it: "audioThread_iteration readi now s =
           s\<lparr>max_amplitude := max_amplitude (audioThread_iteration readi now s),
             last_audio_time := last_audio_time (audioThread_iteration readi now s)\<rparr>"
  proof (cases "readi (frames_to_read s)")
    case (Frames fs)
    then show ?thesis using pb[of fs] by (simp add: audioThread_iteration_def)
  next
    case (Recovered r)
    then show ?thesis using pb[of "[]"] by (simp add: audioThread_iteration_def)
  qed
  have "circular_buffer_left (audioThread_iteration readi now s) = circular_buffer_left s"
    by (subst it) simp
  moreover have "circular_buffer_right (audioThread_iteration readi now s) = circular_buffer_right s"
    by (subst it) simp
  moreover have "write_pos (audioThread_iteration readi now s) = write_pos s"
    by (subst it) simp
  moreover have "frames_to_read s = 256" using assms by (simp add: frames_to_read_def)
  moreover have "frames_to_read (setSleepState False s) = 2048"
    by (simp add: frames_to_read_def setSleepState_def FRAMES_PER_BUFFER_def)
  ultimately show ?thesis using it by simp
qed

theorem asleep_iteration_frame_witness:
  "ap_is_sleeping (setSleepState True (AudioProcessor_init 0))
   \<and> frames_to_read (setSleepState True (AudioProcessor_init 0)) = 256
   \<and> write_pos (audioThread_iteration (\<lambda>n. Frames [(100, 0)]) 5 (setSleepState True (AudioProcessor_init 0))) = 0
   \<and> circular_buffer_left (audioThread_iteration (\<lambda>n. Frames [(100, 0)]) 5 (setSleepState True (AudioProcessor_init 0)))
       = replicate BUFFER_SIZE 0"
  using asleep_iteration_frame[of "setSleepState True (AudioProcessor_init 0)" "\<lambda>n. Frames [(100, 0)]" 5]
  by (simp add: setSleepState_def AudioProcessor_init_def updateParameters_def)

subsection \<open>Parameters and derived factors\<close>










subsection \<open>The spectrum levels\<close>

text \<open>
  Claim C3. The division by the bin count in \<^verbatim>\<open>getSpectrumData\<close> has no guard, and
  needs none: for each of the 7 configured bands the divisor \<^verbatim>\<open>high_idx - low_idx\<close> is
  a positive number. The index computation stays within the range of a 32-bit
  \<^verbatim>\<open>int\<close>, and the inner loop visits exactly as many bins as the divisor counts.
\<close>

theorem band_divisors_nonzero:
  "length FREQ_BANDS = 7
   \<and> map bin_count FREQ_BANDS = [11, 43, 102, 204, 557, 929, 1115]
   \<and> list_all (\<lambda>b. bin_count b \<noteq> 0) FREQ_BANDS
   \<and> list_all (\<lambda>b. 0 \<le> low b * FFT_SIZE_BASS \<and> high b * FFT_SIZE_BASS \<le> INT_MAX) FREQ_BANDS
   \<and> list_all (\<lambda>b. int (length (band_bins b)) = bin_count b) FREQ_BANDS"
  by (simp add: FREQ_BANDS_def bin_count_def low_idx_def high_idx_def trunc_div_def
      FFT_SIZE_BASS_def SAMPLE_RATE_def INT_MAX_def band_bins_def)

lemma level_out_range: "0 \<le> level_out x \<and> level_out x \<le> 255"
  by (simp add: level_out_def)

text \<open>
  Claim C5. Whatever the ring buffer holds, whatever the transform returns, and
  whatever the parameters and the previous smoothing state are, \<^verbatim>\<open>getSpectrumData\<close>
  returns 7 levels per channel, each the new smoothed value truncated to an integer
  and clamped to \<open>[0, 255]\<close>.
\<close>

theorem band_levels_in_range:
  "(case getSpectrumData fft s of (left_out, right_out, s') \<Rightarrow>
      length left_out = 7 \<and> length right_out = 7
      \<and> list_all (\<lambda>v. 0 \<le> v \<and> v \<le> 255) left_out
      \<and> list_all (\<lambda>v. 0 \<le> v \<and> v \<le> 255) right_out
      \<and> left_out = map (\<lambda>x. min 255 (max 0 (float_to_int x))) (prev_left_spectrum s')
      \<and> right_out = map (\<lambda>x. min 255 (max 0 (float_to_int x))) (prev_right_spectrum s'))"
  by (simp add: getSpectrumData_def Let_def list_all_iff level_out_def)

subsection \<open>The power-state coordinator\<close>

lemma coordinator_asleep_no_audio:
  "st_is_sleeping (state app) \<Longrightarrow> coordinator False app = app"
  by (simp add: coordinator_def)

lemma coordinator_enters_sleep:
  "\<not> st_is_sleeping (state app) \<Longrightarrow> st_is_sleeping (state (coordinator False app))"
  by (simp add: coordinator_def)

lemma coordinator_no_audio_funpow:
  assumes "\<not> st_is_sleeping (state app)"
  shows "(coordinator False ^^ Suc n) app = coordinator False app"
proof (induction n)
  case 0
  show ?case by simp
next
  case (Suc n)
  have "(coordinator False ^^ Suc (Suc n)) app = coordinator False ((coordinator False ^^ Suc n) app)"
    by simp
  also have "\<dots> = coordinator False (coordinator False app)"
    by (simp only: Suc)
  also have "\<dots> = coordinator False app"
    by (rule coordinator_asleep_no_audio[OF coordinator_enters_sleep[OF assms]])
  finally show ?case .
qed

text \<open>
  Claim C6. Starting awake with a metadata client, any number (at least one) of
  evaluations of the coordinator with audio absent makes one transition to sleep: the
  result is that of a single evaluation, the state is asleep, and the trace has gained
  exactly one sleep message, one \<^verbatim>\<open>setSleepState(true)\<close> on the audio processor, one
  on the metadata client, and no wake-up. The next evaluation with audio present
  wakes the system again.
\<close>

theorem sleep_transition_once:
  assumes "\<not> st_is_sleeping (state app)" and "mpd_client app \<noteq> None"
  shows "(coordinator False ^^ Suc n) app = coordinator False app
       \<and> st_is_sleeping (state ((coordinator False ^^ Suc n) app))
       \<and> ap_is_sleeping (audio ((coordinator False ^^ Suc n) app))
       \<and> map_option mpd_is_sleeping (mpd_client ((coordinator False ^^ Suc n) app)) = Some True
       \<and> count_list (trace ((coordinator False ^^ Suc n) app)) EnterSleep
           = count_list (trace app) EnterSleep + 1
       \<and> count_list (trace ((coordinator False ^^ Suc n) app)) (AudioSetSleepState True)
           = count_list (trace app) (AudioSetSleepState True) + 1
       \<and> count_list (trace ((coordinator False ^^ Suc n) app)) (MpdSetSleepState True)
           = count_list (trace app) (MpdSetSleepState True) + 1
       \<and> count_list (trace ((coordinator False ^^ Suc n) app)) WakeUp
           = count_list (trace app) WakeUp
       \<and> \<not> st_is_sleeping (state (coordinator True ((coordinator False ^^ Suc n) app)))"
proof -
  obtain c where c: "mpd_client app = Some c" using assms(2) by auto
  have one: "(coordinator False ^^ Suc n) app = coordinator False app"
    by (rule coordinator_no_audio_funpow[OF assms(1)])
  show ?thesis
    unfolding one using assms(1) c
    by (simp add: coordinator_def setSleepState_def mpd_setSleepState_def)
qed

theorem sleep_transition_once_witness:
  "\<not> st_is_sleeping (state (VisualizerApp_init 0))
   \<and> mpd_client (VisualizerApp_init 0) \<noteq> None
   \<and> count_list (trace ((coordinator False ^^ 3) (VisualizerApp_init 0))) EnterSleep = 1
   \<and> count_list (trace ((coordinator False ^^ 3) (VisualizerApp_init 0))) (AudioSetSleepState True) = 1
   \<and> count_list (trace ((coordinator False ^^ 3) (VisualizerApp_init 0))) (MpdSetSleepState True) = 1
   \<and> count_list (trace ((coordinator False ^^ 3) (VisualizerApp_init 0))) WakeUp = 0"
proof -
  have a: "\<not> st_is_sleeping (state (VisualizerApp_init 0))"
    by (simp add: VisualizerApp_init_def)
  have b: "mpd_client (VisualizerApp_init 0) \<noteq> None"
    by (simp add: VisualizerApp_init_def)
  have t: "trace (VisualizerApp_init 0) = []"
    by (simp add: VisualizerApp_init_def)
  have three: "Suc 2 = 3" by simp
  show ?thesis
    using sleep_transition_once[OF a b, of 2] a b
    unfolding three t by (auto simp del: funpow.simps)
qed

subsection \<open>The formatted metadata text\<close>

declare to_string.simps [simp del]

lemma to_string_nonempty: "to_string n \<noteq> []"
  by (subst to_string.simps) simp

lemma setfill_setw_length: "length (setfill_setw c w str) = max w (length str)"
  by (simp add: setfill_setw_def)

lemma track_field_nonempty: "setfill_setw c w (to_string n) \<noteq> []"
  by (simp add: setfill_setw_def to_string_nonempty)

text \<open>
  Claim C2, as the code has it. After a fetch on a live connection that finds a song,
  the text is \<open>NN. Title - Artist (Year)\<close>, where \<open>NN\<close> is the position plus one in
  decimal, padded with zeros to at least two characters; the title is
  \<open>Unknown Title\<close> when the song has no title or an empty one; the artist and its
  separator are left out when the artist is missing; the year is the first four
  characters of the date when the date has at least four, and is left out with its
  parentheses otherwise. When no song is active the text is \<open>No song playing\<close>, and
  before the first fetch it is \<open>Waiting for MPD...\<close>.
\<close>

theorem metadata_display_format:
  assumes "conn c" and "\<not> shutdown_requested c" and "\<not> mpd_is_sleeping c"
  shows "formatted_text (updateCurrentSong (CurrentSong song) c) =
           spec_display
             (setfill_setw CHR ''0'' 2 (to_string (unat (song_pos song + 1))))
             (if tag_or_empty (tag_title song) = [] then ''Unknown Title''
              else tag_or_empty (tag_title song))
             (tag_or_empty (tag_artist song))
             (case tag_date song of
                Some d \<Rightarrow> if 4 \<le> length d then take 4 d else []
              | None \<Rightarrow> [])
       \<and> 2 \<le> length (setfill_setw CHR ''0'' 2 (to_string (unat (song_pos song + 1))))
       \<and> formatted_text (updateCurrentSong NoSong c) = ''No song playing''
       \<and> formatted_text MPDClient_init = ''Waiting for MPD...''"
proof -
  have "formatted_text (updateCurrentSong (CurrentSong song) c) =
           spec_display
             (setfill_setw CHR ''0'' 2 (to_string (unat (song_pos song + 1))))
             (if tag_or_empty (tag_title song) = [] then ''Unknown Title''
              else tag_or_empty (tag_title song))
             (tag_or_empty (tag_artist song))
             (case tag_date song of
                Some d \<Rightarrow> if 4 \<le> length d then take 4 d else []
              | None \<Rightarrow> [])"
    using assms
    by (simp add: updateCurrentSong_def updateFormattedText_def spec_display_def
        to_string_nonempty track_field_nonempty year_of_date_def)
  moreover have "formatted_text (updateCurrentSong NoSong c) = ''No song playing''"
    using assms by (simp add: updateCurrentSong_def updateFormattedText_def)
  moreover have "formatted_text MPDClient_init = ''Waiting for MPD...''"
    by (simp add: MPDClient_init_def updateFormattedText_def)
  ultimately show ?thesis by (simp add: setfill_setw_length)
qed

theorem metadata_display_format_witness:
  "conn (MPDClient_init\<lparr>conn := True\<rparr>)
   \<and> \<not> shutdown_requested (MPDClient_init\<lparr>conn := True\<rparr>)
   \<and> \<not> mpd_is_sleeping (MPDClient_init\<lparr>conn := True\<rparr>)
   \<and> formatted_text
        (updateCurrentSong
           (CurrentSong \<lparr>song_pos = 4, tag_title = Some ''T'', tag_artist = Some ''A'',
                          tag_date = Some ''1999-01-01''\<rparr>)
           (MPDClient_init\<lparr>conn := True\<rparr>))
       = ''05. T - A (1999)''"
  using metadata_display_format[of "MPDClient_init\<lparr>conn := True\<rparr>"
      "\<lparr>song_pos = 4, tag_title = Some ''T'', tag_artist = Some ''A'', tag_date = Some ''1999-01-01''\<rparr>"]
  by (simp add: MPDClient_init_def updateFormattedText_def spec_display_def setfill_setw_def
      to_string.simps digit_char_def tag_or_empty_def)

theorem metadata_display_counterexample:
  "formatted_text
     (updateCurrentSong
        (CurrentSong \<lparr>song_pos = 0, tag_title = None, tag_artist = Some ''A'', tag_date = None\<rparr>)
        (MPDClient_init\<lparr>conn := True\<rparr>))
     = ''01. Unknown Title - A''
   \<and> formatted_text
     (updateCurrentSong
        (CurrentSong \<lparr>song_pos = 0, tag_title = None, tag_artist = Some ''A'', tag_date = None\<rparr>)
        (MPDClient_init\<lparr>conn := True\<rparr>))
     \<noteq> spec_song_display \<lparr>song_pos = 0, tag_title = None, tag_artist = Some ''A'', tag_date = None\<rparr>
   \<and> formatted_text
     (updateCurrentSong
        (CurrentSong \<lparr>song_pos = 0, tag_title = Some ''T'', tag_artist = None, tag_date = Some ''99''\<rparr>)
        (MPDClient_init\<lparr>conn := True\<rparr>))
     = ''01. T''
   \<and> spec_song_display \<lparr>song_pos = 0, tag_title = Some ''T'', tag_artist = None, tag_date = Some ''99''\<rparr>
     = ''01. T (99)''"
  by (simp add: MPDClient_init_def updateCurrentSong_def updateFormattedText_def
      spec_song_display_def spec_display_def setfill_setw_def to_string.simps digit_char_def
      tag_or_empty_def year_of_date_def)

subsection \<open>The stereo phase\<close>

lemma phase_loop_sum:
  "phase_loop left right acc =
     acc + sum_list (map (\<lambda>(l, r). atan2f r l) (qualifying left right))"
  by (induction left right acc rule: phase_loop.induct) (simp_all add: qualifying_def)

lemma stereo_phase_sum:
  "stereo_phase left right =
     sum_list (map (\<lambda>(l, r). atan2f r l) (qualifying left right)) / 512"
  by (simp add: stereo_phase_def phase_loop_sum ANALYSIS_SAMPLES_def)


lemma stereo_window_waveform:
  "stereo_left s = getWaveformData s 512 True" "stereo_right s = getWaveformData s 512 False"
  by (simp_all add: stereo_left_def stereo_right_def getWaveformData_def ANALYSIS_SAMPLES_def)

lemma read_loop_replicate:
  assumes "rp < BUFFER_SIZE"
  shows "read_loop n (replicate BUFFER_SIZE v) rp = replicate n v"
proof (rule nth_equalityI)
  show "length (read_loop n (replicate BUFFER_SIZE v) rp) = length (replicate n v)"
    by (simp add: read_loop_length)
next
  fix i assume "i < length (read_loop n (replicate BUFFER_SIZE v) rp)"
  then have i: "i < n" by (simp add: read_loop_length)
  have "(rp + i) mod BUFFER_SIZE < BUFFER_SIZE" by (simp add: BUFFER_SIZE_eq)
  then show "read_loop n (replicate BUFFER_SIZE v) rp ! i = replicate n v ! i"
    using i by (simp add: read_loop_nth[OF assms i])
qed

lemma start_pos_bound: "start_pos wp k < BUFFER_SIZE"
  by (simp add: start_pos_def BUFFER_SIZE_eq FFT_SIZE_BASS_def nat_less_iff)

lemma init_stereo_window:
  "stereo_left (AudioProcessor_init now) = replicate 512 0"
  "stereo_right (AudioProcessor_init now) = replicate 512 0"
  by (simp_all add: stereo_left_def stereo_right_def AudioProcessor_init_def updateParameters_def
      Let_def read_loop_replicate[OF start_pos_bound] ANALYSIS_SAMPLES_def)

text \<open>
  Claim C1, as the code has it. The phase that \<^verbatim>\<open>getStereoAnalysis\<close> returns is the
  sum of \<^verbatim>\<open>atan2(right[i], left[i])\<close> over the samples of the 512-sample window where
  both magnitudes exceed 0.01, divided by the window length 512 (not by the number of
  qualifying samples); it is 0 when no sample qualifies.
\<close>

theorem stereo_phase_window_sum:
  "fst (getStereoAnalysis s) =
     sum_list (map (\<lambda>(l, r). atan2f r l) (qualifying (stereo_left s) (stereo_right s))) / 512
   \<and> stereo_left s = getWaveformData s 512 True
   \<and> stereo_right s = getWaveformData s 512 False
   \<and> (qualifying (stereo_left s) (stereo_right s) = [] \<longrightarrow> fst (getStereoAnalysis s) = 0)"
  by (simp add: getStereoAnalysis_def stereo_phase_sum stereo_window_waveform[symmetric])

theorem stereo_phase_window_sum_witness:
  "qualifying (stereo_left (AudioProcessor_init 0)) (stereo_right (AudioProcessor_init 0)) = []
   \<and> fst (getStereoAnalysis (AudioProcessor_init 0)) = 0"
proof -
  have q: "qualifying (stereo_left (AudioProcessor_init 0)) (stereo_right (AudioProcessor_init 0)) = []"
    by (simp add: init_stereo_window qualifying_def zip_replicate)
  show ?thesis
    using q stereo_phase_window_sum[of "AudioProcessor_init 0"] by simp
qed

lemma atan2f_diag: "0 < x \<Longrightarrow> atan2f x x = pi / 4"
  by (simp add: atan2f_def arctan_one)

lemma one_loud_frame_window:
  defines "s1 \<equiv> fst (write_samples (replicate 511 (0, 0) @ [(16384, 16384)]) (AudioProcessor_init 0))"
  shows "stereo_left s1 = replicate 511 0 @ [1 / 2]" "stereo_right s1 = replicate 511 0 @ [1 / 2]"
proof -
  let ?fs = "replicate 511 (0, 0) @ [(16384, 16384 :: int16)]"
  have len: "length ?fs < BUFFER_SIZE" by (simp add: BUFFER_SIZE_eq)
  have k: "int (length ?fs) = 512" by simp
  note rw = read_after_write[OF init_buffer_ok[of 0] len, unfolded k]
  show "stereo_left s1 = replicate 511 0 @ [1 / 2]"
    unfolding s1_def stereo_window_waveform using rw
    by (simp add: s16_to_float_def)
  show "stereo_right s1 = replicate 511 0 @ [1 / 2]"
    unfolding s1_def stereo_window_waveform using rw
    by (simp add: s16_to_float_def)
qed

theorem stereo_phase_mean_counterexample:
  "fst (getStereoAnalysis
         (fst (write_samples (replicate 511 (0, 0) @ [(16384, 16384)]) (AudioProcessor_init 0))))
     = pi / 2048
   \<and> spec_mean_phase
       (stereo_left (fst (write_samples (replicate 511 (0, 0) @ [(16384, 16384)]) (AudioProcessor_init 0))))
       (stereo_right (fst (write_samples (replicate 511 (0, 0) @ [(16384, 16384)]) (AudioProcessor_init 0))))
     = pi / 4
   \<and> fst (getStereoAnalysis
         (fst (write_samples (replicate 511 (0, 0) @ [(16384, 16384)]) (AudioProcessor_init 0))))
     \<noteq> spec_mean_phase
       (stereo_left (fst (write_samples (replicate 511 (0, 0) @ [(16384, 16384)]) (AudioProcessor_init 0))))
       (stereo_right (fst (write_samples (replicate 511 (0, 0) @ [(16384, 16384)]) (AudioProcessor_init 0))))"
proof -
  let ?s = "fst (write_samples (replicate 511 (0, 0) @ [(16384, 16384)]) (AudioProcessor_init 0))"
  have q: "qualifying (stereo_left ?s) (stereo_right ?s) = [(1 / 2, 1 / 2)]"
    by (simp add: one_loud_frame_window qualifying_def zip_replicate)
  have code: "fst (getStereoAnalysis ?s) = pi / 2048"
    by (simp add: getStereoAnalysis_def stereo_phase_sum q atan2f_diag)
  have spec: "spec_mean_phase (stereo_left ?s) (stereo_right ?s) = pi / 4"
    by (simp add: spec_mean_phase_def q atan2f_diag)
  show ?thesis
    unfolding code spec by simp
qed

subsection \<open>The stereo correlation\<close>

















subsection \<open>The ring-buffer invariant in every reachable state\<close>

lemma note_peak_buffer_ok: "buffer_ok (note_peak now fm s) = buffer_ok s"
  by (simp add: note_peak_def buffer_ok_def Let_def)

lemma process_block_buffer_ok: "buffer_ok s \<Longrightarrow> buffer_ok (process_block now fs s)"
  using write_samples_ok[of s fs]
  by (auto simp: process_block_def note_peak_buffer_ok split: prod.splits)

lemma reachable_buffer_ok: "reachable s \<Longrightarrow> buffer_ok s"
proof (induction rule: reachable.induct)
  case (init now)
  show ?case by (rule init_buffer_ok)
next
  case (set_sensitivity s v)
  then show ?case by (simp add: buffer_ok_def setSensitivity_def updateParameters_def Let_def)
next
  case (set_noise_reduction s v)
  then show ?case by (simp add: buffer_ok_def setNoiseReduction_def updateParameters_def Let_def)
next
  case (set_sleep_state s b)
  then show ?case by (simp add: buffer_ok_def setSleepState_def)
next
  case (capture s readi now)
  then show ?case
    by (simp add: audioThread_iteration_def process_block_buffer_ok split: pcm_result.splits)
next
  case (spectrum s fft)
  then show ?case by (simp add: buffer_ok_def getSpectrumData_def Let_def)
qed

end
